theory Spec2Isabelle
  imports Main "HOL-Library.Multiset" "HOL-Library.Sublist"
begin

section \<open>Clawtographer: data model\<close>

text \<open>
  The embedding follows \<^verbatim>\<open>src/cartographer.py\<close>. A scanned file is the dictionary that
  \<^verbatim>\<open>scan_codebase\<close> builds, with the keys \<^verbatim>\<open>path\<close>, \<^verbatim>\<open>full_path\<close>, \<^verbatim>\<open>tokens\<close> and
  \<^verbatim>\<open>content\<close>. The token count is \<^verbatim>\<open>len(self.encoder.encode(content))\<close>, a length, hence
  a natural number. The per-chunk budget \<^verbatim>\<open>max_tokens_per_chunk\<close> is read from the
  configuration file and is any integer.
\<close>

record file_info =
  path :: string
  full_path :: string
  tokens :: nat
  content :: string

type_synonym chunk = "file_info list"

section \<open>The packer: \<^verbatim>\<open>create_chunks\<close>\<close>

text \<open>
  \<^verbatim>\<open>files.sort(key=lambda x: x['tokens'], reverse=True)\<close>: Python's sort is stable, also
  with \<^verbatim>\<open>reverse=True\<close> (elements with equal keys keep their original order). A stable
  descending sort by \<^verbatim>\<open>tokens\<close> is the stable ascending sort by the negated key.
\<close>

definition sort_desc :: "file_info list \<Rightarrow> file_info list" where
  "sort_desc files = sort_key (\<lambda>x. - int (tokens x)) files"

text \<open>
  The \<^verbatim>\<open>for file_info in files\<close> loop of \<^verbatim>\<open>create_chunks\<close>, with its three local
  variables \<^verbatim>\<open>chunks\<close>, \<^verbatim>\<open>current_chunk\<close> and \<^verbatim>\<open>current_tokens\<close> as accumulators.
  The first branch is the one that ends in \<^verbatim>\<open>continue\<close>.
\<close>

fun chunk_loop ::
  "int \<Rightarrow> file_info list \<Rightarrow> chunk list \<Rightarrow> chunk \<Rightarrow> nat \<Rightarrow> chunk list \<times> chunk \<times> nat" where
  "chunk_loop max_tokens [] chunks current_chunk current_tokens =
     (chunks, current_chunk, current_tokens)"
| "chunk_loop max_tokens (f # fs) chunks current_chunk current_tokens =
     (if int (tokens f) > max_tokens then
        chunk_loop max_tokens fs (chunks @ [[f]]) current_chunk current_tokens
      else if int (current_tokens + tokens f) > max_tokens then
        chunk_loop max_tokens fs (chunks @ [current_chunk]) [f] (tokens f)
      else
        chunk_loop max_tokens fs chunks (current_chunk @ [f]) (current_tokens + tokens f))"

text \<open>
  \<^verbatim>\<open>create_chunks\<close> sorts the list object it was given, so the caller's list is part
  of the result: the first component is the caller's list after the call, the second
  the returned list of chunks.
\<close>

definition create_chunks :: "int \<Rightarrow> file_info list \<Rightarrow> file_info list \<times> chunk list" where
  "create_chunks max_tokens files =
     (let files' = sort_desc files;
          (chunks, current_chunk, current_tokens) = chunk_loop max_tokens files' [] [] 0
      in (files', if current_chunk \<noteq> [] then chunks @ [current_chunk] else chunks))"

text \<open>The derived total token count of a unit.\<close>

definition chunk_tokens :: "chunk \<Rightarrow> nat" where
  "chunk_tokens c = sum_list (map tokens c)"

text \<open>
  The budget invariant of a unit: within budget, or a singleton whose only item is
  itself over budget.
\<close>

definition within_budget :: "int \<Rightarrow> chunk \<Rightarrow> bool" where
  "within_budget max_tokens c \<longleftrightarrow>
     int (chunk_tokens c) \<le> max_tokens \<or> (length c = 1 \<and> max_tokens < int (tokens (hd c)))"

section \<open>Strings\<close>

text \<open>
  Python strings are modelled as \<^typ>\<open>string\<close>, a list of characters; slicing, \<^verbatim>\<open>len\<close>
  and \<^verbatim>\<open>startswith\<close> are \<^const>\<open>take\<close>, \<^const>\<open>length\<close> and \<^const>\<open>prefix\<close>.

  \<^verbatim>\<open>sep.join(parts)\<close>:
\<close>

fun join :: "string \<Rightarrow> string list \<Rightarrow> string" where
  "join sep [] = []"
| "join sep [x] = x"
| "join sep (x # y # ys) = x @ sep @ join sep (y # ys)"

text \<open>
  \<^verbatim>\<open>str.strip()\<close> removes leading and trailing whitespace; the whitespace characters
  below code point 256 are 9 to 13, 28 to 32, 133 and 160.
\<close>

definition is_space :: "char \<Rightarrow> bool" where
  "is_space c \<longleftrightarrow>
     (let n = (of_char c :: nat)
      in (9 \<le> n \<and> n \<le> 13) \<or> (28 \<le> n \<and> n \<le> 32) \<or> n = 133 \<or> n = 160)"

definition strip :: "string \<Rightarrow> string" where
  "strip s = rev (dropWhile is_space (rev (dropWhile is_space s)))"

text \<open>Decimal rendering of a non-negative integer, as \<^verbatim>\<open>f"{n}"\<close> does.\<close>

fun str_nat :: "nat \<Rightarrow> string" where
  "str_nat n =
     (if n < 10 then [char_of (48 + n)]
      else str_nat (n div 10) @ [char_of (48 + n mod 10)])"

declare str_nat.simps [simp del]

text \<open>\<^verbatim>\<open>f"{n:03d}"\<close>: zero-padded on the left to at least three digits.\<close>

definition format_03d :: "nat \<Rightarrow> string" where
  "format_03d n = replicate (3 - length (str_nat n)) (CHR ''0'') @ str_nat n"

text \<open>
  The number a string of decimal digits denotes. The program does not compute it; it
  serves to show that distinct chunk ids have distinct cache files.
\<close>

definition digits_value :: "string \<Rightarrow> nat" where
  "digits_value s = foldl (\<lambda>a c. 10 * a + (of_char c - 48)) 0 s"

section \<open>The world outside the process\<close>

text \<open>
  What \<^verbatim>\<open>subprocess.run(["ollama", "run", self.model], input=prompt, timeout=...)\<close> can
  do: complete with a return code, standard output and standard error; raise
  \<^verbatim>\<open>TimeoutExpired\<close>; or raise another exception \<^verbatim>\<open>e\<close>, of which the code uses
  \<^verbatim>\<open>str(e)\<close>.
\<close>

datatype proc = Completed int string string | TimeoutExpired | Raised string

text \<open>
  The mutable state a run touches: the files of the cache directory and of the output
  directory (file name to content; the two sets of file names the program uses are
  disjoint), and the log of the prompts sent to the backend so far. File-system
  operations are taken to succeed. Progress lines printed to standard output are
  not modelled.
\<close>

record world =
  cache :: "string \<rightharpoonup> string"
  out_files :: "string \<rightharpoonup> string"
  backend_log :: "string list"

text \<open>
  The backend is an arbitrary function of the calls made before, the model name and
  the prompt, so that its answers may change from call to call and from run to run.
\<close>

type_synonym backend = "string list \<Rightarrow> string \<Rightarrow> string \<Rightarrow> proc"

text \<open>
  The object \<^verbatim>\<open>self\<close>: the fields set by \<^verbatim>\<open>__init__\<close> that the pipeline reads.
  \<^verbatim>\<open>count_tokens\<close> wraps the external tokenizer.
\<close>

record clawtographer =
  codebase_path :: string
  model :: string
  max_tokens_per_chunk :: int
  count_tokens :: "string \<Rightarrow> nat"

text \<open>
  The external inputs of one run: the backend, the files \<^verbatim>\<open>scan_codebase\<close> finds, the
  order in which the worker pool completes the submitted units (a choice sequence,
  see \<open>as_completed\<close> below), and the two readings of the clock.
\<close>

record environment =
  ollama :: backend
  scanned :: "file_info list"
  schedule :: "nat list"
  now_strftime :: string
  now_isoformat :: string

definition ollama_run :: "clawtographer \<Rightarrow> backend \<Rightarrow> string \<Rightarrow> world \<Rightarrow> proc \<times> world" where
  "ollama_run self be prompt w =
     (be (backend_log w) (model self) prompt, w\<lparr>backend_log := backend_log w @ [prompt]\<rparr>)"

section \<open>The dispatcher: \<^verbatim>\<open>analyze_chunk\<close> and \<^verbatim>\<open>analyze_chunks\<close>\<close>

definition cache_file :: "nat \<Rightarrow> string" where
  "cache_file chunk_id = ''chunk_'' @ format_03d chunk_id @ ''.md''"

definition analyze_prompt :: "chunk \<Rightarrow> string" where
  "analyze_prompt chunk =
     (let file_list = join ''\<newline>'' (map (\<lambda>f. ''- '' @ path f) chunk);
          files_content =
            join ''\<newline>\<newline>'' (map (\<lambda>f. ''=== '' @ path f @ '' ===\<newline>'' @ content f) chunk)
      in ''Analyze these code files:\<newline>\<newline>'' @ file_list @
         ''\<newline>\<newline>For each file, describe:\<newline>'' @
         ''1. Purpose and main responsibility\<newline>'' @
         ''2. Key functions, classes, or exports\<newline>'' @
         ''3. Dependencies (what it imports/requires)\<newline>'' @
         ''4. Important patterns or logic\<newline>\<newline>'' @
         ''Files:\<newline>'' @ files_content @
         ''\<newline>\<newline>Provide clear, concise analysis in markdown format.'')"

text \<open>
  A result is the tuple \<^verbatim>\<open>(chunk_id, analysis, from_cache)\<close>. The cache is consulted
  first; only a return code of zero with non-empty stripped output writes the cache.
\<close>

type_synonym analysis = "nat \<times> string \<times> bool"

definition analyze_chunk ::
  "clawtographer \<Rightarrow> backend \<Rightarrow> nat \<Rightarrow> chunk \<Rightarrow> world \<Rightarrow> analysis \<times> world" where
  "analyze_chunk self be chunk_id chunk w =
     (case cache w (cache_file chunk_id) of
        Some text \<Rightarrow> ((chunk_id, text, True), w)
      | None \<Rightarrow>
          (let (result, w1) = ollama_run self be (analyze_prompt chunk) w
           in case result of
                Completed returncode stdout stderr \<Rightarrow>
                  if returncode = 0 then
                    (let analysis = strip stdout
                     in if analysis = [] then
                          ((chunk_id, ''ERROR: Ollama returned empty response'', False), w1)
                        else
                          ((chunk_id, analysis, False),
                           w1\<lparr>cache := (cache w1)(cache_file chunk_id \<mapsto> analysis)\<rparr>))
                  else ((chunk_id, ''ERROR: Ollama failed - '' @ stderr, False), w1)
              | TimeoutExpired \<Rightarrow>
                  ((chunk_id, ''ERROR: Analysis timed out (>5 min)'', False), w1)
              | Raised e \<Rightarrow> ((chunk_id, ''ERROR: '' @ e, False), w1)))"

text \<open>
  \<^verbatim>\<open>as_completed(futures)\<close> yields the submitted units in the order in which the
  workers finish them, which the program does not control. The order is modelled by
  a choice sequence: each number picks (modulo the number of units still pending) the
  unit that completes next; when the sequence is exhausted the rest complete in
  submission order. Every schedule yields a permutation of the submitted units. A
  unit's cache lookup, backend call and cache write are taken as one step, since each
  unit touches only its own cache file.
\<close>

fun as_completed :: "nat list \<Rightarrow> 'a list \<Rightarrow> 'a list" where
  "as_completed ks [] = []"
| "as_completed [] xs = xs"
| "as_completed (k # ks) xs =
     (let j = k mod length xs
      in xs ! j # as_completed ks (take j xs @ drop (Suc j) xs))"

fun dispatch ::
  "clawtographer \<Rightarrow> backend \<Rightarrow> (nat \<times> chunk) list \<Rightarrow> world \<Rightarrow> analysis list \<times> world" where
  "dispatch self be [] w = ([], w)"
| "dispatch self be ((i, chunk) # rest) w =
     (let (r, w1) = analyze_chunk self be i chunk w;
          (rs, w2) = dispatch self be rest w1
      in (r # rs, w2))"

definition analyze_chunks ::
  "clawtographer \<Rightarrow> environment \<Rightarrow> chunk list \<Rightarrow> world \<Rightarrow> analysis list \<times> world" where
  "analyze_chunks self env chunks w =
     dispatch self (ollama env) (as_completed (schedule env) (enumerate 0 chunks)) w"

section \<open>The synthesizer: \<^verbatim>\<open>synthesize_map\<close>\<close>

definition create_final_map :: "clawtographer \<Rightarrow> environment \<Rightarrow> string \<Rightarrow> bool \<Rightarrow> string" where
  "create_final_map self env body synthesized =
     (let synthesis_note =
            (if synthesized then ''synthesized'' else ''concatenated (too large for synthesis)'')
      in ''# Codebase Map\<newline>\<newline>'' @
         ''**Generated:** '' @ now_strftime env @ ''\<newline>'' @
         ''**Tool:** Clawtographer (OpenClaw)\<newline>'' @
         ''**Model:** '' @ model self @ '' (local/free)\<newline>'' @
         ''**Location:** '' @ codebase_path self @ ''\<newline>'' @
         ''**Analysis:** '' @ synthesis_note @ ''\<newline>\<newline>'' @
         ''---\<newline>\<newline>'' @ body @ ''\<newline>\<newline>---\<newline>\<newline>'' @
         ''*This map was automatically generated by Clawtographer using local LLM analysis.  \<newline>'' @
         ''To update: re-run `python3 ~/clawtographer/cartographer.py '' @ codebase_path self @
         ''`*\<newline>'')"

text \<open>
  \<^verbatim>\<open>analyses.sort(key=lambda x: x[0])\<close>: stable, ascending by chunk id. The sort is in
  place, but \<^verbatim>\<open>run\<close> does not read its list \<^verbatim>\<open>analyses\<close> again after the call, so
  the sorted list is kept local here.
\<close>

definition sort_by_id :: "analysis list \<Rightarrow> analysis list" where
  "sort_by_id analyses = sort_key fst analyses"

definition summary :: "string \<Rightarrow> string" where
  "summary analysis =
     take 2000 analysis @ (if length analysis > 2000 then ''\<newline>... (truncated)'' else [])"

definition combined_summaries :: "analysis list \<Rightarrow> string" where
  "combined_summaries analyses =
     join ''\<newline>\<newline>''
       (map (\<lambda>(cid, analysis, _). ''## Chunk '' @ str_nat (cid + 1) @ ''\<newline>'' @ summary analysis)
            analyses)"

definition combined_full :: "analysis list \<Rightarrow> string" where
  "combined_full analyses =
     join ''\<newline>\<newline>---\<newline>\<newline>''
       (map (\<lambda>(cid, analysis, _). ''## Analysis Block '' @ str_nat (cid + 1) @ ''\<newline>\<newline>'' @ analysis)
            analyses)"

definition synthesis_prompt :: "string \<Rightarrow> string" where
  "synthesis_prompt summaries =
     ''You are creating a comprehensive CODEBASE MAP from multiple code analyses.\<newline>\<newline>'' @
     ''Here are summaries from different parts of the codebase:\<newline>\<newline>'' @
     summaries @
     ''\<newline>\<newline>Create a well-organized codebase map with:\<newline>\<newline>'' @
     ''1. **Overview** - What this codebase does (high-level purpose)\<newline>'' @
     ''2. **Architecture** - Main components and how they relate\<newline>'' @
     ''3. **Directory Structure** - Key directories and their purposes\<newline>'' @
     ''4. **Important Files** - Critical files and what they do\<newline>'' @
     ''5. **Data Flow** - How information moves through the system\<newline>'' @
     ''6. **Entry Points** - Where execution begins\<newline>'' @
     ''7. **Dependencies** - External libraries and internal dependencies\<newline>\<newline>'' @
     ''Make it clear, organized, and useful for someone learning this codebase.\<newline>'' @
     ''Use markdown formatting with headers and lists.''"

definition synthesize_map ::
  "clawtographer \<Rightarrow> environment \<Rightarrow> analysis list \<Rightarrow> world \<Rightarrow> string \<times> world" where
  "synthesize_map self env analyses0 w =
     (let analyses = sort_by_id analyses0;
          summaries = combined_summaries analyses;
          summary_tokens = count_tokens self summaries
      in if summary_tokens > 100000 then
           (create_final_map self env (combined_full analyses) False, w)
         else
           (let (result, w1) = ollama_run self (ollama env) (synthesis_prompt summaries) w
            in case result of
                 Completed returncode stdout stderr \<Rightarrow>
                   if returncode = 0 then (create_final_map self env stdout True, w1)
                   else (create_final_map self env (combined_full analyses) False, w1)
               | TimeoutExpired \<Rightarrow> (create_final_map self env (combined_full analyses) False, w1)
               | Raised e \<Rightarrow> (create_final_map self env (combined_full analyses) False, w1)))"

section \<open>The run controller: \<^verbatim>\<open>run\<close>\<close>

definition is_error :: "string \<Rightarrow> bool" where
  "is_error analysis \<longleftrightarrow> prefix ''ERROR:'' analysis"

text \<open>The two lists \<^verbatim>\<open>errors\<close> and \<^verbatim>\<open>successful_chunks\<close> that \<^verbatim>\<open>run\<close> builds.\<close>

definition errors_of :: "analysis list \<Rightarrow> nat list" where
  "errors_of analyses = map fst (filter (\<lambda>(chunk_id, analysis, from_cache). is_error analysis) analyses)"

definition successful_chunks_of :: "analysis list \<Rightarrow> nat list" where
  "successful_chunks_of analyses =
     map fst (filter (\<lambda>(chunk_id, analysis, from_cache). \<not> is_error analysis) analyses)"

text \<open>\<^verbatim>\<open>if cache_file.exists(): cache_file.unlink()\<close> for every successful chunk id.\<close>

fun clean_cache :: "nat list \<Rightarrow> world \<Rightarrow> world" where
  "clean_cache [] w = w"
| "clean_cache (chunk_id # rest) w =
     clean_cache rest
       (if cache w (cache_file chunk_id) \<noteq> None
        then w\<lparr>cache := (cache w)(cache_file chunk_id := None)\<rparr> else w)"

text \<open>
  \<^verbatim>\<open>run\<close> returns \<^verbatim>\<open>None\<close> when it gives up and the output path otherwise; the path is
  given relative to the output directory.
\<close>

definition run :: "clawtographer \<Rightarrow> environment \<Rightarrow> world \<Rightarrow> string option \<times> world" where
  "run self env w =
     (let files = scanned env
      in if files = [] then (None, w)
         else
           (let (files', chunks) = create_chunks (max_tokens_per_chunk self) files;
                (analyses, w1) = analyze_chunks self env chunks w;
                errors = errors_of analyses;
                successful_chunks = successful_chunks_of analyses
            in if successful_chunks = [] then (None, w1)
               else
                 (let (final_map, w2) = synthesize_map self env analyses w1;
                      w3 = w2\<lparr>out_files := (out_files w2)(''CODEBASE_MAP.md'' \<mapsto> final_map)\<rparr>;
                      w4 = w3\<lparr>out_files :=
                                (out_files w3)(''.clawtographer_timestamp'' \<mapsto> now_isoformat env)\<rparr>;
                      w5 = clean_cache successful_chunks w4
                  in (Some ''CODEBASE_MAP.md'', w5))))"

text \<open>
  The first phase of \<^verbatim>\<open>run\<close> after a non-empty scan, packing and dispatch, under a
  name of its own, so that statements about \<^verbatim>\<open>run\<close> can refer to the list \<^verbatim>\<open>analyses\<close>
  and to the world in which dispatch ends.
\<close>

definition run_dispatch :: "clawtographer \<Rightarrow> environment \<Rightarrow> world \<Rightarrow> analysis list \<times> world" where
  "run_dispatch self env w =
     analyze_chunks self env (snd (create_chunks (max_tokens_per_chunk self) (scanned env))) w"

section \<open>Concrete inputs\<close>

text \<open>
  A small code base and some backends, for the concrete runs below: two files that
  the budget of 10 tokens packs into the units 0 and 1, an empty cache and output
  directory, and backends that always answer, never answer, answer only the first
  call, answer with nothing, or answer with a text that itself starts with the error
  marker.
\<close>

definition ex_file_a :: file_info where
  "ex_file_a = \<lparr>path = ''a.py'', full_path = ''/src/a.py'', tokens = 8, content = ''x = 1''\<rparr>"

definition ex_file_b :: file_info where
  "ex_file_b = \<lparr>path = ''b.py'', full_path = ''/src/b.py'', tokens = 7, content = ''y = 2''\<rparr>"

definition ex_self :: "nat \<Rightarrow> clawtographer" where
  "ex_self n = \<lparr>codebase_path = ''/src'', model = ''glm-4.7-flash'', max_tokens_per_chunk = 10,
                count_tokens = (\<lambda>text. n)\<rparr>"

definition ex_world :: world where
  "ex_world = \<lparr>cache = Map.empty, out_files = Map.empty, backend_log = []\<rparr>"

definition backend_up :: backend where
  "backend_up history mdl prompt = Completed 0 ''Analysis.'' []"

definition backend_down :: backend where
  "backend_down history mdl prompt = Completed 1 [] ''connection refused''"

definition backend_first_only :: backend where
  "backend_first_only history mdl prompt =
     (if history = [] then Completed 0 ''Analysis.'' [] else Completed 1 [] ''connection refused'')"

definition backend_empty :: backend where
  "backend_empty history mdl prompt = Completed 0 [] []"

definition backend_error_text :: backend where
  "backend_error_text history mdl prompt = Completed 0 ''ERROR: cannot read the files'' []"

definition ex_env :: "backend \<Rightarrow> environment" where
  "ex_env be = \<lparr>ollama = be, scanned = [ex_file_a, ex_file_b], schedule = [],
               now_strftime = ''2026-01-01 00:00:00'', now_isoformat = ''2026-01-01T00:00:00''\<rparr>"

section \<open>Properties of the packer\<close>

lemma chunk_loop_mset:
  "chunk_loop m fs chunks cur ct = (chunks', cur', ct') \<Longrightarrow>
   mset (concat chunks') + mset cur' = mset (concat chunks) + mset cur + mset fs"
  by (induction fs arbitrary: chunks cur ct) (auto split: if_splits)

lemma chunk_loop_budget:
  "chunk_loop m fs chunks cur ct = (chunks', cur', ct') \<Longrightarrow>
   ct = chunk_tokens cur \<Longrightarrow> (cur \<noteq> [] \<longrightarrow> int ct \<le> m) \<Longrightarrow>
   (\<forall>c \<in> set chunks. within_budget m c \<and> c \<noteq> []) \<Longrightarrow>
   (\<forall>c \<in> set chunks'. within_budget m c \<and> c \<noteq> []) \<and>
   (cur' \<noteq> [] \<longrightarrow> int (chunk_tokens cur') \<le> m)"
proof (induction fs arbitrary: chunks cur ct)
  case Nil
  then show ?case by (auto simp: chunk_tokens_def)
next
  case (Cons f fs)
  show ?case
  proof (cases "int (tokens f) > m")
    case True
    with Cons.prems have run: "chunk_loop m fs (chunks @ [[f]]) cur ct = (chunks', cur', ct')"
      by simp
    from True have "within_budget m [f]" by (simp add: within_budget_def)
    with Cons.prems have "\<forall>c \<in> set (chunks @ [[f]]). within_budget m c \<and> c \<noteq> []" by simp
    from Cons.IH [OF run Cons.prems(2) Cons.prems(3) this] show ?thesis .
  next
    case small: False
    show ?thesis
    proof (cases "int (ct + tokens f) > m")
      case True
      with small Cons.prems have run: "chunk_loop m fs (chunks @ [cur]) [f] (tokens f) = (chunks', cur', ct')"
        by simp
      from True small have "cur \<noteq> []" using Cons.prems(2) by (auto simp: chunk_tokens_def)
      with Cons.prems have "within_budget m cur" by (simp add: within_budget_def)
      with Cons.prems \<open>cur \<noteq> []\<close> have inv: "\<forall>c \<in> set (chunks @ [cur]). within_budget m c \<and> c \<noteq> []"
        by simp
      have "tokens f = chunk_tokens [f]" by (simp add: chunk_tokens_def)
      moreover from small have "[f] \<noteq> [] \<longrightarrow> int (tokens f) \<le> m" by simp
      ultimately show ?thesis using Cons.IH [OF run _ _ inv] by blast
    next
      case False
      with small Cons.prems have run: "chunk_loop m fs chunks (cur @ [f]) (ct + tokens f) = (chunks', cur', ct')"
        by simp
      from Cons.prems(2) have "ct + tokens f = chunk_tokens (cur @ [f])" by (simp add: chunk_tokens_def)
      moreover from False have "cur @ [f] \<noteq> [] \<longrightarrow> int (ct + tokens f) \<le> m" by simp
      ultimately show ?thesis using Cons.IH [OF run _ _ Cons.prems(4)] by blast
    qed
  qed
qed

lemma create_chunks_snd:
  "chunk_loop m (sort_desc fs) [] [] 0 = (chunks, cur, ct) \<Longrightarrow>
   snd (create_chunks m fs) = (if cur \<noteq> [] then chunks @ [cur] else chunks)"
  by (simp add: create_chunks_def)

lemma mset_sort_desc: "mset (sort_desc fs) = mset fs"
  by (simp add: sort_desc_def)

lemma sort_desc_id: "sorted_wrt (\<lambda>x y. tokens x \<ge> tokens y) fs \<Longrightarrow> sort_desc fs = fs"
proof -
  assume "sorted_wrt (\<lambda>x y. tokens x \<ge> tokens y) fs"
  then have "sorted (map (\<lambda>x. - int (tokens x)) fs)"
    by (induction fs) auto
  then show ?thesis unfolding sort_desc_def by (rule sort_key_id_if_sorted)
qed

lemma sorted_sort_desc: "sorted_wrt (\<lambda>x y. tokens x \<ge> tokens y) (sort_desc fs)"
proof -
  have "sorted (map (\<lambda>x. - int (tokens x)) (sort_desc fs))"
    unfolding sort_desc_def by (rule sorted_sort_key)
  then show ?thesis by (simp add: sorted_map sorted_wrt_iff_nth_less)
qed

lemma sort_desc_stable:
  "filter (\<lambda>x. tokens x = k) (sort_desc fs) = filter (\<lambda>x. tokens x = k) fs"
  using sort_key_stable [of "\<lambda>x. - int (tokens x)" "- int k" fs]
  by (simp add: sort_desc_def)

text \<open>
  Claim C3. For every list of items and every budget, every unit the packer produces
  has a total token count of at most the budget, unless it is a singleton whose sole
  item's own token count exceeds the budget. (No unit is empty either.)
\<close>

theorem create_chunks_within_budget:
  "u \<in> set (snd (create_chunks max_tokens files)) \<Longrightarrow>
   u \<noteq> [] \<and>
   (int (chunk_tokens u) \<le> max_tokens \<or>
    (\<exists>f. u = [f] \<and> max_tokens < int (tokens f)))"
proof -
  assume mem: "u \<in> set (snd (create_chunks max_tokens files))"
  obtain chunks cur ct where
    loop: "chunk_loop max_tokens (sort_desc files) [] [] 0 = (chunks, cur, ct)"
    by (cases "chunk_loop max_tokens (sort_desc files) [] [] 0") auto
  have "0 = chunk_tokens []" by (simp add: chunk_tokens_def)
  from chunk_loop_budget [OF loop this]
  have inv: "\<forall>c \<in> set chunks. within_budget max_tokens c \<and> c \<noteq> []"
    and last: "cur \<noteq> [] \<longrightarrow> int (chunk_tokens cur) \<le> max_tokens"
    by simp_all
  from mem create_chunks_snd [OF loop]
  have "u \<in> set chunks \<or> (cur \<noteq> [] \<and> u = cur)" by (auto split: if_splits)
  then have "within_budget max_tokens u \<and> u \<noteq> []"
    using inv last by (auto simp: within_budget_def)
  then show ?thesis
    by (cases u) (auto simp: within_budget_def)
qed

theorem create_chunks_within_budget_witness:
  "[\<lparr>path = ''big'', full_path = ''/big'', tokens = 50, content = ''x''\<rparr>]
     \<in> set (snd (create_chunks 20
         [\<lparr>path = ''small'', full_path = ''/small'', tokens = 5, content = ''y''\<rparr>,
          \<lparr>path = ''big'', full_path = ''/big'', tokens = 50, content = ''x''\<rparr>]))
   \<and> (int (chunk_tokens [\<lparr>path = ''big'', full_path = ''/big'', tokens = 50, content = ''x''\<rparr>]) \<le> 20
      \<or> (\<exists>f. [\<lparr>path = ''big'', full_path = ''/big'', tokens = 50, content = ''x''\<rparr>] = [f]
              \<and> 20 < int (tokens f)))"
proof -
  have mem: "[\<lparr>path = ''big'', full_path = ''/big'', tokens = 50, content = ''x''\<rparr>]
     \<in> set (snd (create_chunks 20
         [\<lparr>path = ''small'', full_path = ''/small'', tokens = 5, content = ''y''\<rparr>,
          \<lparr>path = ''big'', full_path = ''/big'', tokens = 50, content = ''x''\<rparr>]))"
    by code_simp
  from create_chunks_within_budget [OF mem] mem show ?thesis by blast
qed

text \<open>
  Claim C4. For every list of items and every budget, the items of the units the
  packer produces are, as a multiset, exactly the input items: none is lost
  (oversized items included) and none is duplicated.
\<close>

theorem create_chunks_partition:
  "mset (concat (snd (create_chunks max_tokens files))) = mset files"
proof -
  obtain chunks cur ct where
    loop: "chunk_loop max_tokens (sort_desc files) [] [] 0 = (chunks, cur, ct)"
    by (cases "chunk_loop max_tokens (sort_desc files) [] [] 0") auto
  from chunk_loop_mset [OF loop]
  have "mset (concat chunks) + mset cur = mset files" by (simp add: mset_sort_desc)
  moreover from create_chunks_snd [OF loop]
  have "mset (concat (snd (create_chunks max_tokens files))) = mset (concat chunks) + mset cur"
    by simp
  ultimately show ?thesis by simp
qed

text \<open>
  Claim C8. Five items of 1000 tokens each and a budget of 2500 give exactly three
  units of 2, 2 and 1 items, the items in their input order.
\<close>

theorem create_chunks_scenario_A:
  assumes "tokens a = 1000" "tokens b = 1000" "tokens c = 1000" "tokens d = 1000" "tokens e = 1000"
  shows "snd (create_chunks 2500 [a, b, c, d, e]) = [[a, b], [c, d], [e]]"
proof -
  from assms have "sort_desc [a, b, c, d, e] = [a, b, c, d, e]"
    by (intro sort_desc_id) simp
  with assms show ?thesis by (simp add: create_chunks_def)
qed

theorem create_chunks_scenario_A_witness:
  "tokens \<lparr>path = ''a'', full_path = ''/a'', tokens = 1000, content = ''1''\<rparr> = 1000 \<and>
   tokens \<lparr>path = ''b'', full_path = ''/b'', tokens = 1000, content = ''2''\<rparr> = 1000 \<and>
   tokens \<lparr>path = ''c'', full_path = ''/c'', tokens = 1000, content = ''3''\<rparr> = 1000 \<and>
   tokens \<lparr>path = ''d'', full_path = ''/d'', tokens = 1000, content = ''4''\<rparr> = 1000 \<and>
   tokens \<lparr>path = ''e'', full_path = ''/e'', tokens = 1000, content = ''5''\<rparr> = 1000 \<and>
   snd (create_chunks 2500
     [\<lparr>path = ''a'', full_path = ''/a'', tokens = 1000, content = ''1''\<rparr>,
      \<lparr>path = ''b'', full_path = ''/b'', tokens = 1000, content = ''2''\<rparr>,
      \<lparr>path = ''c'', full_path = ''/c'', tokens = 1000, content = ''3''\<rparr>,
      \<lparr>path = ''d'', full_path = ''/d'', tokens = 1000, content = ''4''\<rparr>,
      \<lparr>path = ''e'', full_path = ''/e'', tokens = 1000, content = ''5''\<rparr>]) =
   [[\<lparr>path = ''a'', full_path = ''/a'', tokens = 1000, content = ''1''\<rparr>,
     \<lparr>path = ''b'', full_path = ''/b'', tokens = 1000, content = ''2''\<rparr>],
    [\<lparr>path = ''c'', full_path = ''/c'', tokens = 1000, content = ''3''\<rparr>,
     \<lparr>path = ''d'', full_path = ''/d'', tokens = 1000, content = ''4''\<rparr>],
    [\<lparr>path = ''e'', full_path = ''/e'', tokens = 1000, content = ''5''\<rparr>]]"
  using create_chunks_scenario_A
    [of "\<lparr>path = ''a'', full_path = ''/a'', tokens = 1000, content = ''1''\<rparr>"
        "\<lparr>path = ''b'', full_path = ''/b'', tokens = 1000, content = ''2''\<rparr>"
        "\<lparr>path = ''c'', full_path = ''/c'', tokens = 1000, content = ''3''\<rparr>"
        "\<lparr>path = ''d'', full_path = ''/d'', tokens = 1000, content = ''4''\<rparr>"
        "\<lparr>path = ''e'', full_path = ''/e'', tokens = 1000, content = ''5''\<rparr>"]
  by simp

text \<open>
  Claim C9. Packing mutates its argument: after \<^verbatim>\<open>create_chunks\<close> the caller's list
  holds the same items sorted by descending token count (items with equal counts in
  their former order), and it is left in scan order only when the scan order was
  already descending.
\<close>

theorem create_chunks_sorts_in_place:
  "mset (fst (create_chunks max_tokens files)) = mset files \<and>
   sorted_wrt (\<lambda>x y. tokens x \<ge> tokens y) (fst (create_chunks max_tokens files)) \<and>
   (\<forall>k. filter (\<lambda>x. tokens x = k) (fst (create_chunks max_tokens files)) =
        filter (\<lambda>x. tokens x = k) files) \<and>
   (fst (create_chunks max_tokens files) = files \<longleftrightarrow>
      sorted_wrt (\<lambda>x y. tokens x \<ge> tokens y) files)"
proof -
  have eq: "fst (create_chunks max_tokens files) = sort_desc files"
    by (simp add: create_chunks_def Let_def split: prod.splits)
  show ?thesis
    unfolding eq
    using mset_sort_desc sorted_sort_desc sort_desc_stable sort_desc_id
    by metis
qed

theorem create_chunks_sorts_in_place_witness:
  "fst (create_chunks 10
     [\<lparr>path = ''a'', full_path = ''/a'', tokens = 1, content = ''x''\<rparr>,
      \<lparr>path = ''b'', full_path = ''/b'', tokens = 2, content = ''y''\<rparr>])
   \<noteq> [\<lparr>path = ''a'', full_path = ''/a'', tokens = 1, content = ''x''\<rparr>,
      \<lparr>path = ''b'', full_path = ''/b'', tokens = 2, content = ''y''\<rparr>]"
  using create_chunks_sorts_in_place [of 10
     "[\<lparr>path = ''a'', full_path = ''/a'', tokens = 1, content = ''x''\<rparr>,
      \<lparr>path = ''b'', full_path = ''/b'', tokens = 2, content = ''y''\<rparr>]"]
  by simp

section \<open>Properties of the dispatcher, the synthesizer and the run controller\<close>

lemma analyze_chunk_hit:
  "cache w (cache_file i) = Some text \<Longrightarrow> analyze_chunk self be i chunk w = ((i, text, True), w)"
  by (simp add: analyze_chunk_def)

lemma analyze_chunk_miss:
  "cache w (cache_file i) = None \<Longrightarrow>
   analyze_chunk self be i chunk w =
     (let w1 = w\<lparr>backend_log := backend_log w @ [analyze_prompt chunk]\<rparr>
      in case be (backend_log w) (model self) (analyze_prompt chunk) of
           Completed rc out err \<Rightarrow>
             if rc = 0 then
               if strip out = [] then ((i, ''ERROR: Ollama returned empty response'', False), w1)
               else ((i, strip out, False), w1\<lparr>cache := (cache w)(cache_file i \<mapsto> strip out)\<rparr>)
             else ((i, ''ERROR: Ollama failed - '' @ err, False), w1)
         | TimeoutExpired \<Rightarrow> ((i, ''ERROR: Analysis timed out (>5 min)'', False), w1)
         | Raised e \<Rightarrow> ((i, ''ERROR: '' @ e, False), w1))"
  by (simp add: analyze_chunk_def ollama_run_def Let_def split: proc.splits)

lemma analyze_chunk_id: "fst (fst (analyze_chunk self be i chunk w)) = i"
  by (cases "cache w (cache_file i)")
     (simp_all add: analyze_chunk_hit analyze_chunk_miss Let_def split: proc.splits)

lemma analyze_chunk_out_files: "out_files (snd (analyze_chunk self be i chunk w)) = out_files w"
  by (cases "cache w (cache_file i)")
     (simp_all add: analyze_chunk_hit analyze_chunk_miss Let_def split: proc.splits)

lemma analyze_chunk_cache_le: "cache w \<subseteq>\<^sub>m cache (snd (analyze_chunk self be i chunk w))"
  by (cases "cache w (cache_file i)")
     (auto simp add: analyze_chunk_hit analyze_chunk_miss Let_def map_le_def split: proc.splits)

lemma analyze_chunk_cache_other:
  "k \<noteq> cache_file i \<Longrightarrow> cache (snd (analyze_chunk self be i chunk w)) k = cache w k"
  by (cases "cache w (cache_file i)")
     (simp_all add: analyze_chunk_hit analyze_chunk_miss Let_def split: proc.splits)

lemma dispatch_Cons:
  "dispatch self be ((i, chunk) # rest) w =
     (fst (analyze_chunk self be i chunk w) #
        fst (dispatch self be rest (snd (analyze_chunk self be i chunk w))),
      snd (dispatch self be rest (snd (analyze_chunk self be i chunk w))))"
  by (simp split: prod.splits)

lemma dispatch_out_files: "out_files (snd (dispatch self be tasks w)) = out_files w"
proof (induction tasks arbitrary: w)
  case Nil
  show ?case by simp
next
  case (Cons t tasks)
  obtain i chunk where t: "t = (i, chunk)" by (cases t)
  show ?case unfolding t dispatch_Cons by (simp add: Cons.IH analyze_chunk_out_files)
qed

lemma dispatch_cache_le: "cache w \<subseteq>\<^sub>m cache (snd (dispatch self be tasks w))"
proof (induction tasks arbitrary: w)
  case Nil
  show ?case by simp
next
  case (Cons t tasks)
  obtain i chunk where t: "t = (i, chunk)" by (cases t)
  have "cache w \<subseteq>\<^sub>m cache (snd (analyze_chunk self be i chunk w))"
    by (rule analyze_chunk_cache_le)
  also have "\<dots> \<subseteq>\<^sub>m cache (snd (dispatch self be tasks (snd (analyze_chunk self be i chunk w))))"
    by (rule Cons.IH)
  finally show ?case unfolding t dispatch_Cons by simp
qed

lemma dispatch_ids: "map fst (fst (dispatch self be tasks w)) = map fst tasks"
proof (induction tasks arbitrary: w)
  case Nil
  show ?case by simp
next
  case (Cons t tasks)
  obtain i chunk where t: "t = (i, chunk)" by (cases t)
  show ?case unfolding t dispatch_Cons by (simp add: Cons.IH analyze_chunk_id)
qed

lemma synthesize_map_over:
  "count_tokens self (combined_summaries (sort_by_id analyses)) > 100000 \<Longrightarrow>
   synthesize_map self env analyses w =
     (create_final_map self env (combined_full (sort_by_id analyses)) False, w)"
  by (simp add: synthesize_map_def Let_def)

lemma synthesize_map_under:
  "\<not> count_tokens self (combined_summaries (sort_by_id analyses)) > 100000 \<Longrightarrow>
   synthesize_map self env analyses w =
     (let prompt = synthesis_prompt (combined_summaries (sort_by_id analyses));
          w1 = w\<lparr>backend_log := backend_log w @ [prompt]\<rparr>
      in case ollama env (backend_log w) (model self) prompt of
           Completed rc out err \<Rightarrow>
             if rc = 0 then (create_final_map self env out True, w1)
             else (create_final_map self env (combined_full (sort_by_id analyses)) False, w1)
         | TimeoutExpired \<Rightarrow> (create_final_map self env (combined_full (sort_by_id analyses)) False, w1)
         | Raised e \<Rightarrow> (create_final_map self env (combined_full (sort_by_id analyses)) False, w1))"
  by (simp add: synthesize_map_def ollama_run_def Let_def split: proc.splits)

lemma synthesize_map_cache: "cache (snd (synthesize_map self env analyses w)) = cache w"
  by (cases "count_tokens self (combined_summaries (sort_by_id analyses)) > 100000")
     (simp_all add: synthesize_map_over synthesize_map_under Let_def split: proc.splits)

lemma synthesize_map_out_files: "out_files (snd (synthesize_map self env analyses w)) = out_files w"
  by (cases "count_tokens self (combined_summaries (sort_by_id analyses)) > 100000")
     (simp_all add: synthesize_map_over synthesize_map_under Let_def split: proc.splits)

lemma clean_cache_cache:
  "cache (clean_cache ids w) k = (if k \<in> cache_file ` set ids then None else cache w k)"
  by (induction ids arbitrary: w) auto



lemma run_empty: "scanned env = [] \<Longrightarrow> run self env w = (None, w)"
  by (simp add: run_def)

lemma run_abort:
  "scanned env \<noteq> [] \<Longrightarrow> successful_chunks_of (fst (run_dispatch self env w)) = [] \<Longrightarrow>
   run self env w = (None, snd (run_dispatch self env w))"
  by (simp add: run_def run_dispatch_def Let_def case_prod_beta)

lemma run_ok:
  "scanned env \<noteq> [] \<Longrightarrow> successful_chunks_of (fst (run_dispatch self env w)) \<noteq> [] \<Longrightarrow>
   run self env w =
     (Some ''CODEBASE_MAP.md'',
      clean_cache (successful_chunks_of (fst (run_dispatch self env w)))
        ((snd (synthesize_map self env (fst (run_dispatch self env w)) (snd (run_dispatch self env w))))
           \<lparr>out_files :=
              (out_files (snd (synthesize_map self env (fst (run_dispatch self env w))
                               (snd (run_dispatch self env w)))))
              (''CODEBASE_MAP.md'' \<mapsto>
                 fst (synthesize_map self env (fst (run_dispatch self env w)) (snd (run_dispatch self env w))),
               ''.clawtographer_timestamp'' \<mapsto> now_isoformat env)\<rparr>))"
  by (simp add: run_def run_dispatch_def Let_def case_prod_beta)

lemma run_Some_iff:
  "fst (run self env w) \<noteq> None \<longleftrightarrow>
   scanned env \<noteq> [] \<and> successful_chunks_of (fst (run_dispatch self env w)) \<noteq> []"
  using run_empty [of env self w] run_abort [of env self w] run_ok [of env self w]
  by (cases "scanned env = []"; cases "successful_chunks_of (fst (run_dispatch self env w)) = []") auto

lemma successful_chunks_of_iff:
  "i \<in> set (successful_chunks_of analyses) \<longleftrightarrow> (\<exists>a fc. (i, a, fc) \<in> set analyses \<and> \<not> is_error a)"
  by (auto simp: successful_chunks_of_def image_iff) 

lemma successful_chunks_of_Nil_iff:
  "successful_chunks_of analyses = [] \<longleftrightarrow> (\<forall>(i, a, fc) \<in> set analyses. is_error a)"
  by (auto simp: successful_chunks_of_def filter_empty_conv)

lemma digits_value_snoc:
  "digits_value (s @ [c]) = 10 * digits_value s + (of_char c - 48)"
  by (simp add: digits_value_def)

lemma digits_value_str_nat: "digits_value (str_nat n) = n"
proof (induction n rule: str_nat.induct)
  case (1 n)
  show ?case
  proof (cases "n < 10")
    case True
    then have "(48 + n) mod 256 = 48 + n" by simp
    with True show ?thesis
      by (subst str_nat.simps) (simp add: digits_value_def)
  next
    case False
    have "n mod 10 < 10" by simp
    then have "(48 + n mod 10) mod 256 = 48 + n mod 10" by simp
    with False "1.IH" show ?thesis
      by (subst str_nat.simps) (simp add: digits_value_snoc)
  qed
qed

lemma digits_value_zeros: "digits_value (replicate k (CHR ''0'') @ s) = digits_value s"
proof -
  have "foldl (\<lambda>a c. 10 * a + (of_char c - 48)) (0::nat) (replicate k (CHR ''0'')) = 0"
    by (induction k) simp_all
  then show ?thesis by (simp add: digits_value_def)
qed

lemma digits_value_format_03d: "digits_value (format_03d n) = n"
  by (simp add: format_03d_def digits_value_zeros digits_value_str_nat)

lemma cache_file_inj: "cache_file i = cache_file j \<longleftrightarrow> i = j"
proof
  assume "cache_file i = cache_file j"
  then have "format_03d i = format_03d j" by (simp add: cache_file_def)
  then have "digits_value (format_03d i) = digits_value (format_03d j)" by simp
  then show "i = j" by (simp add: digits_value_format_03d)
qed simp

lemma mset_pick:
  "j < length ys \<Longrightarrow> add_mset (ys ! j) (mset (take j ys @ drop (Suc j) ys)) = mset ys"
proof -
  assume "j < length ys"
  then have "mset ys = mset (take j ys @ ys ! j # drop (Suc j) ys)"
    using id_take_nth_drop [of j ys] by simp
  then show ?thesis by simp
qed

lemma mset_as_completed: "mset (as_completed ks xs) = mset xs"
proof (induction ks xs rule: as_completed.induct)
  case (3 k ks x xs)
  define ys where "ys = x # xs"
  define j where "j = k mod length ys"
  have "ys \<noteq> []" by (simp add: ys_def)
  then have j: "j < length ys" unfolding j_def by simp
  have ih: "mset (as_completed ks (take j ys @ drop (Suc j) ys)) = mset (take j ys @ drop (Suc j) ys)"
    using "3.IH" [of j] by (simp only: j_def ys_def)
  have "as_completed (k # ks) ys = ys ! j # as_completed ks (take j ys @ drop (Suc j) ys)"
    unfolding ys_def j_def by (simp only: as_completed.simps Let_def)
  then have "mset (as_completed (k # ks) ys) = add_mset (ys ! j) (mset (take j ys @ drop (Suc j) ys))"
    by (simp only: mset.simps ih)
  also have "\<dots> = mset ys" by (rule mset_pick [OF j])
  finally show ?case by (simp only: ys_def)
qed simp_all

lemma tasks_set:
  "set (as_completed ks (enumerate 0 chunks)) = set (enumerate 0 chunks)"
  using mset_as_completed [of ks "enumerate 0 chunks"] by (metis set_mset_mset)

lemma tasks_distinct: "distinct (map fst (as_completed ks (enumerate 0 chunks)))"
proof -
  have "mset (map fst (as_completed ks (enumerate 0 chunks))) = mset (map fst (enumerate 0 chunks))"
    by (simp only: mset_map mset_as_completed)
  moreover have "distinct (map fst (enumerate 0 chunks))" by simp
  ultimately show ?thesis using mset_eq_imp_distinct_iff by blast
qed

lemma analyze_chunk_log:
  "\<exists>l. backend_log (snd (analyze_chunk self be i chunk w)) = backend_log w @ l"
  by (cases "cache w (cache_file i)")
     (simp_all add: analyze_chunk_hit analyze_chunk_miss Let_def split: proc.splits)

lemma dispatch_log:
  "\<exists>l. backend_log (snd (dispatch self be tasks w)) = backend_log w @ l"
proof (induction tasks arbitrary: w)
  case Nil
  show ?case by simp
next
  case (Cons t tasks)
  obtain i chunk where t: "t = (i, chunk)" by (cases t)
  have "\<exists>l. backend_log (snd (analyze_chunk self be i chunk w)) = backend_log w @ l"
    by (rule analyze_chunk_log)
  then obtain l1 where "backend_log (snd (analyze_chunk self be i chunk w)) = backend_log w @ l1" ..
  moreover obtain l2 where
    "backend_log (snd (dispatch self be tasks (snd (analyze_chunk self be i chunk w)))) =
     backend_log (snd (analyze_chunk self be i chunk w)) @ l2"
    using Cons.IH by blast
  ultimately show ?case unfolding t dispatch_Cons by simp
qed

lemma analyze_chunk_miss_fresh:
  "cache w (cache_file i) = None \<Longrightarrow>
   snd (snd (fst (analyze_chunk self be i chunk w))) = False \<and>
   backend_log (snd (analyze_chunk self be i chunk w)) = backend_log w @ [analyze_prompt chunk]"
  by (simp add: analyze_chunk_miss Let_def split: proc.splits)

lemma dispatch_miss:
  "distinct (map fst tasks) \<Longrightarrow> (i, chunk) \<in> set tasks \<Longrightarrow> cache w (cache_file i) = None \<Longrightarrow>
   \<exists>a l. (i, a, False) \<in> set (fst (dispatch self be tasks w)) \<and>
         backend_log (snd (dispatch self be tasks w)) = backend_log w @ l \<and>
         analyze_prompt chunk \<in> set l"
proof (induction tasks arbitrary: w)
  case Nil
  then show ?case by simp
next
  case (Cons t tasks)
  obtain j c where t: "t = (j, c)" by (cases t)
  let ?r = "fst (analyze_chunk self be j c w)"
  let ?w1 = "snd (analyze_chunk self be j c w)"
  show ?case
  proof (cases "j = i")
    case True
    with Cons.prems(1,2) t have c: "c = chunk" by (auto simp: image_iff)
    from analyze_chunk_miss_fresh [OF Cons.prems(3), of self be chunk] analyze_chunk_id [of self be i chunk w]
    have r: "?r = (i, fst (snd ?r), False)" and log1: "backend_log ?w1 = backend_log w @ [analyze_prompt chunk]"
      unfolding True c by (simp_all add: prod_eq_iff)
    obtain l2 where "backend_log (snd (dispatch self be tasks ?w1)) = backend_log ?w1 @ l2"
      using dispatch_log by blast
    with log1 have "backend_log (snd (dispatch self be tasks ?w1)) = backend_log w @ (analyze_prompt chunk # l2)"
      by simp
    moreover have "(i, fst (snd ?r), False) \<in> set (?r # fst (dispatch self be tasks ?w1))"
      using r by simp
    ultimately show ?thesis unfolding t dispatch_Cons fst_conv snd_conv
      by (intro exI [of _ "fst (snd ?r)"] exI [of _ "analyze_prompt chunk # l2"]) simp
  next
    case False
    with Cons.prems t have mem: "(i, chunk) \<in> set tasks" and dist: "distinct (map fst tasks)" by auto
    from False have "cache_file i \<noteq> cache_file j" by (simp add: cache_file_inj)
    then have "cache ?w1 (cache_file i) = None"
      using Cons.prems(3) by (simp add: analyze_chunk_cache_other)
    from Cons.IH [OF dist mem this] obtain a l where
      a: "(i, a, False) \<in> set (fst (dispatch self be tasks ?w1))" and
      l: "backend_log (snd (dispatch self be tasks ?w1)) = backend_log ?w1 @ l" "analyze_prompt chunk \<in> set l"
      by blast
    obtain l1 where "backend_log ?w1 = backend_log w @ l1"
      using analyze_chunk_log by blast
    with l have "backend_log (snd (dispatch self be tasks ?w1)) = backend_log w @ (l1 @ l)"
      "analyze_prompt chunk \<in> set (l1 @ l)" by simp_all
    with a show ?thesis unfolding t dispatch_Cons fst_conv snd_conv
      by (intro exI [of _ a] exI [of _ "l1 @ l"]) simp
  qed
qed

lemma cache_file_0: "cache_file 0 = ''chunk_000.md''"
  by code_simp

lemma cache_file_1: "cache_file (Suc 0) = ''chunk_001.md''"
  by code_simp



text \<open>
  Claim C2, as stated, fails: with the backend down, the first attempt at unit 0
  returns an error-marked result and leaves the cache as empty as it was.
\<close>

theorem failed_attempt_leaves_no_cache_entry:
  "fst (analyze_chunk (ex_self 5) backend_down 0 [ex_file_a] ex_world) =
     (0, ''ERROR: Ollama failed - connection refused'', False) \<and>
   cache (snd (analyze_chunk (ex_self 5) backend_down 0 [ex_file_a] ex_world)) = Map.empty"
  by (simp add: analyze_chunk_miss ex_world_def backend_down_def Let_def)

text \<open>
  Claim C2, amended. A dispatch attempt creates the unit's cache entry only when
  there was none and the backend returns status zero with output that is not empty
  after stripping; the entry is that stripped output. Every other attempt (non-zero
  status, empty output, timeout, exception, cache hit) leaves the cache unchanged,
  so a failed unit leaves no cache artifact.
\<close>

theorem analyze_chunk_cache_write:
  "cache (snd (analyze_chunk self be chunk_id chunk w)) =
     (case cache w (cache_file chunk_id) of
        Some text \<Rightarrow> cache w
      | None \<Rightarrow>
          (case be (backend_log w) (model self) (analyze_prompt chunk) of
             Completed returncode stdout stderr \<Rightarrow>
               if returncode = 0 \<and> strip stdout \<noteq> []
               then (cache w)(cache_file chunk_id \<mapsto> strip stdout)
               else cache w
           | TimeoutExpired \<Rightarrow> cache w
           | Raised e \<Rightarrow> cache w))"
  by (cases "cache w (cache_file chunk_id)")
     (simp_all add: analyze_chunk_hit analyze_chunk_miss Let_def split: proc.splits)

theorem analyze_chunk_cache_write_witness:
  "cache (snd (analyze_chunk (ex_self 5) backend_up 0 [ex_file_a] ex_world)) =
     [cache_file 0 \<mapsto> ''Analysis.''] \<and>
   cache (snd (analyze_chunk (ex_self 5) backend_empty 0 [ex_file_a] ex_world)) = Map.empty"
proof -
  have s: "strip ''Analysis.'' = ''Analysis.''" "strip [] = []" by code_simp+
  show ?thesis
    using analyze_chunk_cache_write [of "ex_self 5" backend_up 0 "[ex_file_a]" ex_world]
          analyze_chunk_cache_write [of "ex_self 5" backend_empty 0 "[ex_file_a]" ex_world]
    by (simp add: ex_world_def backend_up_def backend_empty_def s)
qed



lemma ex_chunks: "snd (create_chunks 10 [ex_file_a, ex_file_b]) = [[ex_file_a], [ex_file_b]]"
  by (simp add: create_chunks_def sort_desc_def ex_file_a_def ex_file_b_def)

lemma strip_Analysis: "strip ''Analysis.'' = ''Analysis.''"
  by code_simp

lemma strip_error_text: "strip ''ERROR: cannot read the files'' = ''ERROR: cannot read the files''"
  by code_simp

lemma ex_tasks:
  "analyze_chunks self (ex_env be) [[ex_file_a], [ex_file_b]] w =
     dispatch self be [(0, [ex_file_a]), (Suc 0, [ex_file_b])] w"
  by (simp add: analyze_chunks_def ex_env_def)

lemma ex_run_dispatch:
  "run_dispatch (ex_self n) (ex_env be) w =
     dispatch (ex_self n) be [(0, [ex_file_a]), (Suc 0, [ex_file_b])] w"
  unfolding run_dispatch_def
  by (simp add: ex_self_def ex_env_def ex_chunks) (simp add: ex_tasks [unfolded ex_env_def])










lemma ex_dispatch_first_only:
  "run_dispatch (ex_self n) (ex_env backend_first_only) ex_world =
     ([(0, ''Analysis.'', False), (1, ''ERROR: Ollama failed - connection refused'', False)],
      \<lparr>cache = [''chunk_000.md'' \<mapsto> ''Analysis.''],
       out_files = Map.empty,
       backend_log = [analyze_prompt [ex_file_a], analyze_prompt [ex_file_b]]\<rparr>)"
  by (simp add: ex_run_dispatch dispatch_Cons analyze_chunk_miss analyze_chunk_hit Let_def
      ex_world_def backend_first_only_def cache_file_0 cache_file_1 strip_Analysis)

lemma ex_dispatch_down:
  "run_dispatch (ex_self n) (ex_env backend_down) ex_world =
     ([(0, ''ERROR: Ollama failed - connection refused'', False),
       (1, ''ERROR: Ollama failed - connection refused'', False)],
      \<lparr>cache = Map.empty,
       out_files = Map.empty,
       backend_log = [analyze_prompt [ex_file_a], analyze_prompt [ex_file_b]]\<rparr>)"
  by (simp add: ex_run_dispatch dispatch_Cons analyze_chunk_miss analyze_chunk_hit Let_def
      ex_world_def backend_down_def cache_file_0 cache_file_1)

lemma ex_dispatch_error_text:
  "run_dispatch (ex_self n) (ex_env backend_error_text) ex_world =
     ([(0, ''ERROR: cannot read the files'', False), (1, ''ERROR: cannot read the files'', False)],
      \<lparr>cache = [''chunk_000.md'' \<mapsto> ''ERROR: cannot read the files'',
                ''chunk_001.md'' \<mapsto> ''ERROR: cannot read the files''],
       out_files = Map.empty,
       backend_log = [analyze_prompt [ex_file_a], analyze_prompt [ex_file_b]]\<rparr>)"
  by (simp add: ex_run_dispatch dispatch_Cons analyze_chunk_miss analyze_chunk_hit Let_def
      ex_world_def backend_error_text_def cache_file_0 cache_file_1 strip_error_text)

lemma analyze_chunk_new_entry:
  "cache (snd (analyze_chunk self be i chunk w)) k = Some v \<Longrightarrow>
   cache w k = Some v \<or> fst (snd (fst (analyze_chunk self be i chunk w))) = v"
  by (cases "cache w (cache_file i)")
     (auto simp add: analyze_chunk_hit analyze_chunk_miss Let_def split: proc.splits if_splits)

lemma dispatch_new_entry:
  "cache (snd (dispatch self be tasks w)) k = Some v \<Longrightarrow>
   cache w k = Some v \<or> v \<in> (\<lambda>r. fst (snd r)) ` set (fst (dispatch self be tasks w))"
proof (induction tasks arbitrary: w)
  case Nil
  then show ?case by simp
next
  case (Cons t tasks)
  obtain i chunk where t: "t = (i, chunk)" by (cases t)
  let ?w1 = "snd (analyze_chunk self be i chunk w)"
  from Cons.prems have "cache (snd (dispatch self be tasks ?w1)) k = Some v"
    unfolding t dispatch_Cons by simp
  from Cons.IH [OF this]
  have "cache ?w1 k = Some v \<or> v \<in> (\<lambda>r. fst (snd r)) ` set (fst (dispatch self be tasks ?w1))" .
  then show ?case
  proof
    assume "cache ?w1 k = Some v"
    from analyze_chunk_new_entry [OF this] show ?thesis
      unfolding t dispatch_Cons by auto
  next
    assume "v \<in> (\<lambda>r. fst (snd r)) ` set (fst (dispatch self be tasks ?w1))"
    then show ?thesis unfolding t dispatch_Cons by auto
  qed
qed

text \<open>
  Claim C7, as stated, fails in its last part: when every unit's backend answer has
  status zero and itself starts with the error marker, the run aborts and writes no
  output, but the answers have been written to the cache, which was empty before.
\<close>

theorem aborted_run_changes_cache:
  "fst (run (ex_self 5) (ex_env backend_error_text) ex_world) = None \<and>
   list_all (\<lambda>(i, a, fc). is_error a)
     (fst (run_dispatch (ex_self 5) (ex_env backend_error_text) ex_world)) \<and>
   cache ex_world (cache_file 0) = None \<and>
   cache (snd (run (ex_self 5) (ex_env backend_error_text) ex_world)) (cache_file 0) =
     Some ''ERROR: cannot read the files''"
proof -
  let ?S = "ex_self 5" and ?E = "ex_env backend_error_text"
  have sc: "scanned ?E \<noteq> []" by (simp add: ex_env_def)
  have all: "list_all (\<lambda>(i, a, fc). is_error a) (fst (run_dispatch ?S ?E ex_world))"
    by (simp add: ex_dispatch_error_text is_error_def)
  then have none: "successful_chunks_of (fst (run_dispatch ?S ?E ex_world)) = []"
    by (simp add: successful_chunks_of_Nil_iff list_all_iff)
  from run_abort [OF sc none] all show ?thesis
    by (simp add: ex_dispatch_error_text cache_file_0) (simp add: ex_world_def)
qed

text \<open>
  Claim C7, amended. If zero items are scanned, or every unit's result carries the
  error marker, the run returns \<^verbatim>\<open>None\<close> without writing the final document or the
  timestamp and without deleting or changing any cache entry: the output directory is
  as before and every cache entry present before is still there. With zero items the
  whole world is unchanged. Otherwise the cache may have gained entries, and any entry
  that differs from before holds an error-marked text.
\<close>

theorem run_aborts_without_output:
  assumes "scanned env = [] \<or> (\<forall>(i, a, fc) \<in> set (fst (run_dispatch self env w)). is_error a)"
  shows "fst (run self env w) = None \<and>
         out_files (snd (run self env w)) = out_files w \<and>
         cache w \<subseteq>\<^sub>m cache (snd (run self env w)) \<and>
         (scanned env = [] \<longrightarrow> snd (run self env w) = w) \<and>
         (\<forall>k v. cache (snd (run self env w)) k = Some v \<longrightarrow> cache w k = Some v \<or> is_error v)"
proof (cases "scanned env = []")
  case True
  then show ?thesis by (simp add: run_empty)
next
  case False
  with assms have "successful_chunks_of (fst (run_dispatch self env w)) = []"
    by (simp add: successful_chunks_of_Nil_iff)
  from run_abort [OF False this]
  have r: "run self env w = (None, snd (run_dispatch self env w))" .
  have d: "run_dispatch self env w =
      dispatch self (ollama env)
        (as_completed (schedule env)
           (enumerate 0 (snd (create_chunks (max_tokens_per_chunk self) (scanned env))))) w"
    by (simp add: run_dispatch_def analyze_chunks_def)
  have err: "is_error v" if "v \<in> (\<lambda>r. fst (snd r)) ` set (fst (run_dispatch self env w))" for v
    using that assms False by auto
  have new: "cache w k = Some v \<or> is_error v" if "cache (snd (run self env w)) k = Some v" for k v
  proof -
    from that have "cache (snd (run_dispatch self env w)) k = Some v" by (simp add: r)
    then have "cache w k = Some v \<or> v \<in> (\<lambda>r. fst (snd r)) ` set (fst (run_dispatch self env w))"
      unfolding d by (rule dispatch_new_entry)
    with err show ?thesis by blast
  qed
  have "out_files (snd (run self env w)) = out_files w"
    by (simp add: r d dispatch_out_files)
  moreover have "cache w \<subseteq>\<^sub>m cache (snd (run self env w))"
    by (simp add: r d dispatch_cache_le)
  ultimately show ?thesis using False new by (simp add: r)
qed

theorem run_aborts_without_output_witness:
  "(scanned (ex_env backend_down) = [] \<or>
    (\<forall>(i, a, fc) \<in> set (fst (run_dispatch (ex_self 5) (ex_env backend_down) ex_world)). is_error a)) \<and>
   fst (run (ex_self 5) (ex_env backend_down) ex_world) = None \<and>
   out_files (snd (run (ex_self 5) (ex_env backend_down) ex_world)) = out_files ex_world \<and>
   cache ex_world \<subseteq>\<^sub>m cache (snd (run (ex_self 5) (ex_env backend_down) ex_world)) \<and>
   scanned (ex_env backend_up\<lparr>scanned := []\<rparr>) = [] \<and>
   run (ex_self 5) (ex_env backend_up\<lparr>scanned := []\<rparr>) ex_world = (None, ex_world)"
proof -
  have h: "scanned (ex_env backend_down) = [] \<or>
    (\<forall>(i, a, fc) \<in> set (fst (run_dispatch (ex_self 5) (ex_env backend_down) ex_world)). is_error a)"
    by (simp add: ex_dispatch_down is_error_def)
  have h': "scanned (ex_env backend_up\<lparr>scanned := []\<rparr>) = [] \<or>
    (\<forall>(i, a, fc) \<in> set (fst (run_dispatch (ex_self 5) (ex_env backend_up\<lparr>scanned := []\<rparr>) ex_world)).
       is_error a)"
    by simp
  from run_aborts_without_output [OF h] run_aborts_without_output [OF h'] h
  show ?thesis by (simp add: prod_eq_iff)
qed

lemma run_evicts_succeeded:
  assumes "fst (run self env w) \<noteq> None"
    and "(i, a, fc) \<in> set (fst (run_dispatch self env w))" and "\<not> is_error a"
  shows "cache (snd (run self env w)) (cache_file i) = None"
proof -
  from assms(1) have sc: "scanned env \<noteq> []"
    and ok: "successful_chunks_of (fst (run_dispatch self env w)) \<noteq> []"
    using run_Some_iff by blast+
  from assms(2,3) have "i \<in> set (successful_chunks_of (fst (run_dispatch self env w)))"
    by (auto simp: successful_chunks_of_iff)
  then show ?thesis
    unfolding run_ok [OF sc ok] by (simp add: clean_cache_cache)
qed

lemma run_dispatch_unit:
  assumes "(i, a, fc) \<in> set (fst (run_dispatch self env w))"
  shows "(i, snd (create_chunks (max_tokens_per_chunk self) (scanned env)) ! i)
           \<in> set (enumerate 0 (snd (create_chunks (max_tokens_per_chunk self) (scanned env))))"
proof -
  let ?chunks = "snd (create_chunks (max_tokens_per_chunk self) (scanned env))"
  let ?tasks = "as_completed (schedule env) (enumerate 0 ?chunks)"
  from assms have "i \<in> set (map fst (fst (dispatch self (ollama env) ?tasks w)))"
    unfolding run_dispatch_def analyze_chunks_def by (metis fst_conv image_eqI set_map)
  then have "i \<in> fst ` set ?tasks" by (simp add: dispatch_ids)
  then have "i \<in> fst ` set (enumerate 0 ?chunks)" by (simp only: tasks_set)
  then have "i < length ?chunks" by (auto simp: in_set_enumerate_eq)
  then show ?thesis by (simp add: in_set_enumerate_eq)
qed

lemma run_dispatch_miss:
  assumes "(i, chunk) \<in> set (enumerate 0 (snd (create_chunks (max_tokens_per_chunk self) (scanned env))))"
    and "cache w (cache_file i) = None"
  shows "\<exists>a l. (i, a, False) \<in> set (fst (run_dispatch self env w)) \<and>
               backend_log (snd (run_dispatch self env w)) = backend_log w @ l \<and>
               analyze_prompt chunk \<in> set l"
proof -
  let ?chunks = "snd (create_chunks (max_tokens_per_chunk self) (scanned env))"
  let ?tasks = "as_completed (schedule env) (enumerate 0 ?chunks)"
  from assms(1) have "(i, chunk) \<in> set ?tasks" by (simp only: tasks_set)
  from dispatch_miss [OF tasks_distinct this assms(2)] show ?thesis
    unfolding run_dispatch_def analyze_chunks_def .
qed

lemma ex_run1:
  "fst (run (ex_self 5) (ex_env backend_first_only) ex_world) = Some ''CODEBASE_MAP.md''"
  "cache (snd (run (ex_self 5) (ex_env backend_first_only) ex_world)) = Map.empty"
proof -
  let ?S = "ex_self 5" and ?E = "ex_env backend_first_only"
  have sc: "scanned ?E \<noteq> []" by (simp add: ex_env_def)
  have ok: "successful_chunks_of (fst (run_dispatch ?S ?E ex_world)) \<noteq> []"
    by (simp add: ex_dispatch_first_only successful_chunks_of_def is_error_def)
  show "fst (run ?S ?E ex_world) = Some ''CODEBASE_MAP.md''"
    unfolding run_ok [OF sc ok] by simp
  show "cache (snd (run ?S ?E ex_world)) = Map.empty"
    unfolding run_ok [OF sc ok]
    by (rule ext)
       (simp add: clean_cache_cache synthesize_map_cache ex_dispatch_first_only cache_file_0
          successful_chunks_of_def is_error_def)
qed

lemma ex_dispatch_up_empty:
  assumes "cache w = Map.empty"
  shows "fst (run_dispatch (ex_self n) (ex_env backend_up) w) =
           [(0, ''Analysis.'', False), (1, ''Analysis.'', False)]"
    and "backend_log (snd (run_dispatch (ex_self n) (ex_env backend_up) w)) =
           backend_log w @ [analyze_prompt [ex_file_a], analyze_prompt [ex_file_b]]"
  using assms
  by (simp_all add: ex_run_dispatch dispatch_Cons analyze_chunk_miss Let_def backend_up_def
      cache_file_0 cache_file_1 strip_Analysis del: dispatch.simps(2))

text \<open>
  Claim C1, as stated, fails. In the first run unit 0 succeeds and unit 1 fails, and
  the final document is written. In the next run over the same files unit 0 is not
  served from the cache: its result is freshly computed and its prompt is sent to the
  backend again, like that of unit 1.
\<close>

theorem succeeded_unit_recomputed:
  "fst (run (ex_self 5) (ex_env backend_first_only) ex_world) = Some ''CODEBASE_MAP.md'' \<and>
   fst (run_dispatch (ex_self 5) (ex_env backend_first_only) ex_world) =
     [(0, ''Analysis.'', False), (1, ''ERROR: Ollama failed - connection refused'', False)] \<and>
   fst (run_dispatch (ex_self 5) (ex_env backend_up)
          (snd (run (ex_self 5) (ex_env backend_first_only) ex_world))) =
     [(0, ''Analysis.'', False), (1, ''Analysis.'', False)] \<and>
   backend_log (snd (run_dispatch (ex_self 5) (ex_env backend_up)
          (snd (run (ex_self 5) (ex_env backend_first_only) ex_world)))) =
     backend_log (snd (run (ex_self 5) (ex_env backend_first_only) ex_world)) @
       [analyze_prompt [ex_file_a], analyze_prompt [ex_file_b]]"
  by (simp add: ex_run1 ex_dispatch_first_only ex_dispatch_up_empty)

text \<open>
  Claim C1, amended. After a run that wrote a final document, the cache holds no
  entry for any unit that succeeded in that run, since the run deletes these entries
  once the document is written. A subsequent run over the same input, whatever the
  backend and the completion order, invokes the backend for every unit whose cache
  entry is absent: its result is freshly computed and its prompt is sent to the
  backend. So the previously succeeded units are recomputed, like the failed units
  that left no entry.
\<close>

theorem succeeded_units_evicted:
  assumes "fst (run self env w) = Some p"
    and "(i, a, fc) \<in> set (fst (run_dispatch self env w))"
    and "scanned env' = scanned env"
  shows "(\<not> is_error a \<longrightarrow> cache (snd (run self env w)) (cache_file i) = None) \<and>
         (cache (snd (run self env w)) (cache_file i) = None \<longrightarrow>
            (\<exists>a' l. (i, a', False) \<in> set (fst (run_dispatch self env' (snd (run self env w)))) \<and>
               backend_log (snd (run_dispatch self env' (snd (run self env w)))) =
                 backend_log (snd (run self env w)) @ l \<and>
               analyze_prompt (snd (create_chunks (max_tokens_per_chunk self) (scanned env)) ! i)
                 \<in> set l))"
proof (intro conjI impI)
  assume "\<not> is_error a"
  moreover from assms(1) have "fst (run self env w) \<noteq> None" by simp
  ultimately show "cache (snd (run self env w)) (cache_file i) = None"
    using assms(2) by (intro run_evicts_succeeded)
next
  assume gone: "cache (snd (run self env w)) (cache_file i) = None"
  from run_dispatch_unit [OF assms(2)]
  have "(i, snd (create_chunks (max_tokens_per_chunk self) (scanned env')) ! i)
          \<in> set (enumerate 0 (snd (create_chunks (max_tokens_per_chunk self) (scanned env'))))"
    by (simp only: assms(3))
  from run_dispatch_miss [OF this gone]
  show "\<exists>a' l. (i, a', False) \<in> set (fst (run_dispatch self env' (snd (run self env w)))) \<and>
      backend_log (snd (run_dispatch self env' (snd (run self env w)))) =
        backend_log (snd (run self env w)) @ l \<and>
      analyze_prompt (snd (create_chunks (max_tokens_per_chunk self) (scanned env)) ! i) \<in> set l"
    by (simp only: assms(3))
qed

theorem succeeded_units_evicted_witness:
  "fst (run (ex_self 5) (ex_env backend_first_only) ex_world) = Some ''CODEBASE_MAP.md'' \<and>
   (0, ''Analysis.'', False) \<in> set (fst (run_dispatch (ex_self 5) (ex_env backend_first_only) ex_world)) \<and>
   scanned (ex_env backend_down) = scanned (ex_env backend_first_only) \<and>
   \<not> is_error ''Analysis.'' \<and>
   cache (snd (run (ex_self 5) (ex_env backend_first_only) ex_world)) (cache_file 0) = None \<and>
   (\<exists>a' l. (0, a', False) \<in> set (fst (run_dispatch (ex_self 5) (ex_env backend_down)
                (snd (run (ex_self 5) (ex_env backend_first_only) ex_world)))) \<and>
      backend_log (snd (run_dispatch (ex_self 5) (ex_env backend_down)
                (snd (run (ex_self 5) (ex_env backend_first_only) ex_world)))) =
        backend_log (snd (run (ex_self 5) (ex_env backend_first_only) ex_world)) @ l \<and>
      analyze_prompt [ex_file_a] \<in> set l)"
proof -
  let ?S = "ex_self 5" and ?E = "ex_env backend_first_only"
  have h1: "fst (run ?S ?E ex_world) = Some ''CODEBASE_MAP.md''" by (rule ex_run1)
  have h2: "(0, ''Analysis.'', False) \<in> set (fst (run_dispatch ?S ?E ex_world))"
    by (simp add: ex_dispatch_first_only)
  have h3: "scanned (ex_env backend_down) = scanned ?E" by (simp add: ex_env_def)
  have h4: "\<not> is_error ''Analysis.''" by (simp add: is_error_def)
  have c: "snd (create_chunks (max_tokens_per_chunk ?S) (scanned ?E)) ! 0 = [ex_file_a]"
    by (simp add: ex_self_def ex_env_def ex_chunks)
  from succeeded_units_evicted [OF h1 h2 h3] h1 h2 h3 h4 show ?thesis
    unfolding c by blast
qed

end
